theory Spec2Isabelle
  imports Complex_Main
begin

section \<open>Character-aware embedding (models/transformer_chrawr.py)\<close>

text \<open>
  The module builds the character-aware embedding in front of a Transformer encoder:
  \<open>embedding_mask\<close>, \<open>highway\<close>, \<open>conv_emb\<close> and the pipeline \<open>chrawr_embedding\<close>.
  The functions are embedded by the value they denote on a batch of sequences.

  Conventions of the embedding:
  \<^item> a rank-3 float tensor \<open>[batch, time, channel]\<close> is a \<open>real list list list\<close>; the
    entries are real numbers, so rounding, infinities and NaN are outside the model;
  \<^item> the learned variables are a function from the variable's name to its weights; the
    names are those the source gives to its layers;
  \<^item> the two random draws of dropout are explicit arguments of the forward pass;
  \<^item> a Python exception is a value \<open>Inl e\<close> of the result.
\<close>

subsection \<open>Tensors, errors, configuration\<close>

type_synonym vec = "real list"
type_synonym tensor = "real list list list"

text \<open>\<open>has_shape x B T C\<close>: \<open>x\<close> is the rectangular tensor of shape \<open>[B, T, C]\<close>.\<close>

definition has_shape :: "tensor \<Rightarrow> nat \<Rightarrow> nat \<Rightarrow> nat \<Rightarrow> bool" where
  "has_shape x B T C \<longleftrightarrow>
     length x = B \<and> (\<forall>r\<in>set x. length r = T \<and> (\<forall>v\<in>set r. length v = C))"

datatype error = AssertionError | UnboundLocalError | IndexError | ValueError

text \<open>
  The hyperparameters the module reads (\<open>transformer_chrawr_base\<close> sets them).
  \<open>chr_nonlinearity\<close> is an elementwise activation (\<open>tf.nn.tanh\<close>, \<open>tf.nn.relu\<close>,
  \<open>tf.nn.elu\<close> in the presets).
\<close>

record hparams =
  num_highway_layers :: int
  reduced_input_size :: nat
  hidden_size :: nat
  chr_kernels :: "nat list"
  chr_kernel_features :: "nat list"
  chr_maxpool_size :: nat
  chr_nonlinearity :: "real \<Rightarrow> real"
  chr_dropout_rate :: real
  chr_pos_enc :: bool

text \<open>
  Variable names: \<open>name="rescaled_embedding"\<close>, \<open>name="restored_embedding"\<close>,
  \<open>'highway_lin_%d' % idx\<close>, \<open>'highway_gate_%d' % idx\<close>, \<open>"kernel_%d" % kernel_size\<close>.
  A convolution's weights are its kernel, indexed by tap, input channel and output
  channel, and its bias, indexed by output channel.
\<close>

datatype var_name =
    Rescaled_embedding
  | Restored_embedding
  | Highway_lin nat
  | Highway_gate nat
  | Kernel nat

record conv_weights =
  kernel :: "nat \<Rightarrow> nat \<Rightarrow> nat \<Rightarrow> real"
  bias :: "nat \<Rightarrow> real"

text \<open>
  What one forward pass is given besides the input and the hyperparameters: the
  variables, the table of \<open>common_attention.add_timing_signal_1d\<close> (by channel count,
  position and channel; the function belongs to tensor2tensor and is a parameter here),
  and the uniform samples in \<open>[0, 1)\<close> drawn by the first and the second
  \<open>tf.nn.dropout\<close>, by index.
\<close>

record forward_pass =
  variables :: "var_name \<Rightarrow> conv_weights"
  timing_signal :: "nat \<Rightarrow> nat \<Rightarrow> nat \<Rightarrow> real"
  noise1 :: "nat \<Rightarrow> nat \<Rightarrow> nat \<Rightarrow> real"
  noise2 :: "nat \<Rightarrow> nat \<Rightarrow> nat \<Rightarrow> real"

subsection \<open>The framework's operations\<close>

text \<open>
  \<open>tf.layers.conv1d(inputs, filters, kernel_size, 1, 'same', activation)\<close>: stride 1,
  zero padding of \<open>kernel_size - 1\<close> positions of which \<open>(kernel_size - 1) div 2\<close> before
  the sequence, a bias, then the activation.
\<close>

definition conv1d_at :: "conv_weights \<Rightarrow> nat \<Rightarrow> vec list \<Rightarrow> nat \<Rightarrow> nat \<Rightarrow> real" where
  "conv1d_at w kernel_size xs t out =
     bias w out +
     (\<Sum>j\<leftarrow>[0..<kernel_size].
        let s = int t + int j - int ((kernel_size - 1) div 2)
        in if 0 \<le> s \<and> s < int (length xs)
           then (\<Sum>i\<leftarrow>[0..<length (xs ! nat s)]. kernel w j i out * xs ! nat s ! i)
           else 0)"

definition conv1d ::
  "tensor \<Rightarrow> nat \<Rightarrow> nat \<Rightarrow> (real \<Rightarrow> real) \<Rightarrow> conv_weights \<Rightarrow> tensor" where
  "conv1d inputs filters kernel_size activation w =
     map (\<lambda>xs. map (\<lambda>t. map (\<lambda>out. activation (conv1d_at w kernel_size xs t out))
                           [0..<filters])
                  [0..<length xs])
         inputs"

text \<open>
  \<open>emb * mask\<close> with \<open>emb\<close> of shape \<open>[B, T, C]\<close> and \<open>mask\<close> of shape \<open>[B, T, 1]\<close>: the
  single mask entry of a position multiplies every channel of that position.
\<close>

definition mul_vec :: "vec \<Rightarrow> vec \<Rightarrow> vec" where
  "mul_vec v m = (case m of [m0] \<Rightarrow> map (\<lambda>a. a * m0) v | _ \<Rightarrow> map2 (*) v m)"

definition mul_mask :: "tensor \<Rightarrow> tensor \<Rightarrow> tensor" where
  "mul_mask x m = map2 (map2 mul_vec) x m"

text \<open>Elementwise operations on tensors of one shape.\<close>

definition tmap :: "(real \<Rightarrow> real) \<Rightarrow> tensor \<Rightarrow> tensor" where
  "tmap f x = map (map (map f)) x"

definition tmap2 :: "(real \<Rightarrow> real \<Rightarrow> real) \<Rightarrow> tensor \<Rightarrow> tensor \<Rightarrow> tensor" where
  "tmap2 f x y = map2 (map2 (map2 f)) x y"

text \<open>An elementwise operation that also reads the index of the entry.\<close>

definition imap :: "(nat \<Rightarrow> nat \<Rightarrow> nat \<Rightarrow> real \<Rightarrow> real) \<Rightarrow> tensor \<Rightarrow> tensor" where
  "imap f x =
     map (\<lambda>b. map (\<lambda>t. map (\<lambda>c. f b t c (x ! b ! t ! c)) [0..<length (x ! b ! t)])
                   [0..<length (x ! b)])
         [0..<length x]"

text \<open>
  \<open>tf.layers.max_pooling1d(inputs, pool_size, strides, 'same')\<close>. With \<open>T\<close> positions the
  output has \<open>(T + strides - 1) div strides\<close> windows; the padding needed is
  \<open>(out - 1) * strides + pool_size - T\<close> (none if that is negative), half of it, rounded
  down, before the sequence; padded positions do not take part in the maximum. A
  window or stride of 0 is rejected when the graph is built.
\<close>

definition window_max :: "vec list \<Rightarrow> vec" where
  "window_max vs = (case vs of [] \<Rightarrow> [] | v # rest \<Rightarrow> foldl (map2 max) v rest)"

definition pool_row :: "nat \<Rightarrow> nat \<Rightarrow> vec list \<Rightarrow> vec list" where
  "pool_row pool_size strides xs =
     (let T = length xs;
          out = (T + strides - 1) div strides;
          pad_before = ((out - 1) * strides + pool_size - T) div 2
      in map (\<lambda>i. window_max
                     (map (\<lambda>s. xs ! s)
                        [i * strides - pad_before ..<
                           min T (i * strides + pool_size - pad_before)]))
             [0..<out])"

definition max_pooling1d :: "tensor \<Rightarrow> nat \<Rightarrow> nat \<Rightarrow> error + tensor" where
  "max_pooling1d inputs pool_size strides =
     (if pool_size = 0 \<or> strides = 0 then Inl ValueError
      else Inr (map (pool_row pool_size strides) inputs))"

text \<open>
  \<open>tf.nn.dropout(x, keep_prob)\<close>: a \<open>keep_prob\<close> outside \<open>(0, 1]\<close> is a \<open>ValueError\<close>;
  \<open>keep_prob = 1\<close> returns \<open>x\<close> itself; otherwise every entry is divided by \<open>keep_prob\<close>
  and multiplied by \<open>floor (keep_prob + u)\<close> for its uniform sample \<open>u\<close>.
\<close>

definition dropout ::
  "tensor \<Rightarrow> real \<Rightarrow> (nat \<Rightarrow> nat \<Rightarrow> nat \<Rightarrow> real) \<Rightarrow> error + tensor" where
  "dropout x keep_prob noise =
     (if \<not> (0 < keep_prob \<and> keep_prob \<le> 1) then Inl ValueError
      else if keep_prob = 1 then Inr x
      else Inr (imap (\<lambda>b t c a. a / keep_prob * of_int \<lfloor>keep_prob + noise b t c\<rfloor>) x))"

text \<open>\<open>common_attention.add_timing_signal_1d(x)\<close>: adds the signal of each position.\<close>

definition add_timing_signal_1d :: "tensor \<Rightarrow> (nat \<Rightarrow> nat \<Rightarrow> nat \<Rightarrow> real) \<Rightarrow> tensor" where
  "add_timing_signal_1d x signal =
     imap (\<lambda>b t c a. a + signal (length (x ! b ! t)) t c) x"

text \<open>
  \<open>tf.concat(layers, 2)\<close>: the channel vectors of the same position are appended, in the
  order of the list. No tensor to concatenate is a \<open>ValueError\<close>.
\<close>

definition concat_channels :: "tensor list \<Rightarrow> error + tensor" where
  "concat_channels layers =
     (case layers of
        [] \<Rightarrow> Inl ValueError
      | l # ls \<Rightarrow> Inr (foldl (map2 (map2 (@))) l ls))"

text \<open>
  \<open>emb.get_shape()[-1]\<close>, the channel width. It is read off the first position; a tensor
  without positions stays without positions under every operation below, whatever
  the width.
\<close>

definition last_dim :: "tensor \<Rightarrow> nat" where
  "last_dim x = (case concat x of [] \<Rightarrow> 0 | v # _ \<Rightarrow> length v)"

definition sigmoid :: "real \<Rightarrow> real" where
  "sigmoid a = 1 / (1 + exp (- a))"

subsection \<open>embedding\_mask\<close>

text \<open>
  \<^verbatim>\<open>emb_sum = tf.reduce_sum(tf.abs(emb), axis=-1)\<close>
  \<^verbatim>\<open>return tf.expand_dims(tf.to_float(tf.not_equal(emb_sum, 0.0)), -1)\<close>
\<close>

definition embedding_mask :: "tensor \<Rightarrow> tensor" where
  "embedding_mask emb =
     map (map (\<lambda>v. [if (\<Sum>a\<leftarrow>v. \<bar>a\<bar>) \<noteq> 0 then 1 else 0])) emb"

subsection \<open>highway\<close>

text \<open>
  The loop \<open>for idx in range(hparams.num_highway_layers)\<close> carries the local variables
  \<open>inputs\<close> and \<open>output\<close>; \<open>output\<close> is unbound until the first iteration assigns it,
  and \<open>return output\<close> with \<open>output\<close> unbound raises \<open>UnboundLocalError\<close>. The arguments
  \<open>bias\<close> (an initializer) and \<open>f\<close> (unused) do not take part in the value.

  The layer is modelled for the call the pipeline makes, \<open>size\<close> being the channel
  width of \<open>inputs\<close> (\<open>highway(emb, emb.get_shape()[-1], hparams)\<close>): then \<open>t\<close>, \<open>g\<close>
  and \<open>inputs\<close> have one shape and \<open>t * g + (1. - t) * inputs\<close> is elementwise. With
  another \<open>size\<close> the source broadcasts or raises; that case is not modelled, and
  every statement below about what a layer or \<open>highway\<close> returns has the hypothesis
  that the input has \<open>size\<close> channels.
\<close>

definition highway_layer ::
  "hparams \<Rightarrow> (var_name \<Rightarrow> conv_weights) \<Rightarrow> nat \<Rightarrow> nat \<Rightarrow> tensor \<Rightarrow> tensor" where
  "highway_layer hp vars size' idx inputs =
     (let t = conv1d inputs size' 1 sigmoid (vars (Highway_lin idx));
          g = conv1d inputs size' 1 (chr_nonlinearity hp) (vars (Highway_gate idx))
      in tmap2 (+) (tmap2 (*) t g) (tmap2 (*) (tmap (\<lambda>a. 1 - a) t) inputs))"

fun highway_loop ::
  "hparams \<Rightarrow> (var_name \<Rightarrow> conv_weights) \<Rightarrow> nat \<Rightarrow> nat list \<Rightarrow>
     tensor \<times> tensor option \<Rightarrow> tensor \<times> tensor option" where
  "highway_loop hp vars size' [] st = st"
| "highway_loop hp vars size' (idx # rest) (inputs, output) =
     (let output' = highway_layer hp vars size' idx inputs
      in highway_loop hp vars size' rest (output', Some output'))"

definition highway ::
  "tensor \<Rightarrow> nat \<Rightarrow> hparams \<Rightarrow> (var_name \<Rightarrow> conv_weights) \<Rightarrow> error + tensor" where
  "highway inputs size' hp vars =
     (case snd (highway_loop hp vars size' [0..<nat (num_highway_layers hp)] (inputs, None)) of
        None \<Rightarrow> Inl UnboundLocalError
      | Some output \<Rightarrow> Inr output)"

subsection \<open>conv\_emb\<close>

text \<open>
  One iteration of the loop over \<open>zip(hparams.chr_kernels, hparams.chr_kernel_features)\<close>:
  convolution, mask, pooling. The layer is named after its kernel size, and the
  framework refuses to create the variables of a second layer of the same name in the
  scope (\<open>ValueError\<close>); \<open>created\<close> holds the kernel sizes already used.
\<close>

definition conv_branch :: "tensor \<Rightarrow> hparams \<Rightarrow> tensor \<Rightarrow> (var_name \<Rightarrow> conv_weights) \<Rightarrow>
     nat \<Rightarrow> nat \<Rightarrow> error + tensor" where
  "conv_branch inputs hp input_mask vars kernel_size kernel_feature_size =
     (let conv = conv1d inputs kernel_feature_size kernel_size (chr_nonlinearity hp)
                   (vars (Kernel kernel_size));
          conv = mul_mask conv input_mask
      in max_pooling1d conv (chr_maxpool_size hp) (chr_maxpool_size hp))"

fun conv_emb_loop :: "tensor \<Rightarrow> hparams \<Rightarrow> tensor \<Rightarrow> (var_name \<Rightarrow> conv_weights) \<Rightarrow>
     (nat \<times> nat) list \<Rightarrow> nat list \<Rightarrow> tensor list \<Rightarrow> error + tensor list" where
  "conv_emb_loop inputs hp input_mask vars [] created layers = Inr layers"
| "conv_emb_loop inputs hp input_mask vars ((kernel_size, kernel_feature_size) # rest)
       created layers =
     (if kernel_size \<in> set created then Inl ValueError
      else case conv_branch inputs hp input_mask vars kernel_size kernel_feature_size of
             Inl e \<Rightarrow> Inl e
           | Inr pool \<Rightarrow>
               conv_emb_loop inputs hp input_mask vars rest
                 (created @ [kernel_size]) (layers @ [pool]))"

definition conv_emb ::
  "tensor \<Rightarrow> hparams \<Rightarrow> tensor \<Rightarrow> (var_name \<Rightarrow> conv_weights) \<Rightarrow> error + tensor" where
  "conv_emb inputs hp input_mask vars =
     (if length (chr_kernels hp) \<noteq> length (chr_kernel_features hp) then Inl AssertionError
      else case conv_emb_loop inputs hp input_mask vars
                  (zip (chr_kernels hp) (chr_kernel_features hp)) [] [] of
             Inl e \<Rightarrow> Inl e
           | Inr layers \<Rightarrow>
               if length (chr_kernels hp) > 1 then concat_channels layers
               else (case layers of [] \<Rightarrow> Inl IndexError | l # _ \<Rightarrow> Inr l))"

subsection \<open>chrawr\_embedding\<close>

text \<open>
  The pipeline up to the call of \<open>conv_emb\<close> (lines 74 to 85); the two
  \<open>tf.summary.image\<close> calls only record the masks.
\<close>

definition chrawr_conv :: "tensor \<Rightarrow> hparams \<Rightarrow> forward_pass \<Rightarrow> error + tensor" where
  "chrawr_conv emb hp fp =
     (let emb_mask = embedding_mask emb;
          emb = conv1d emb (reduced_input_size hp) 1 (\<lambda>a. a) (variables fp Rescaled_embedding);
          emb = (if chr_pos_enc hp then add_timing_signal_1d emb (timing_signal fp) else emb);
          emb = mul_mask emb emb_mask
      in conv_emb emb hp emb_mask (variables fp))"

text \<open>
  The rest of the pipeline. The second dropout is bound to \<open>encoder_input\<close>, as in the
  source; the convolution \<open>restored_embedding\<close> reads \<open>emb\<close>.
\<close>

definition chrawr_embedding :: "tensor \<Rightarrow> hparams \<Rightarrow> forward_pass \<Rightarrow> error + tensor" where
  "chrawr_embedding emb hp fp =
     (case chrawr_conv emb hp fp of
        Inl e \<Rightarrow> Inl e
      | Inr emb \<Rightarrow>
          (let emb_mask_in = embedding_mask emb
           in (case dropout emb (1 - chr_dropout_rate hp) (noise1 fp) of
                 Inl e \<Rightarrow> Inl e
               | Inr emb \<Rightarrow>
                   (case highway emb (last_dim emb) hp (variables fp) of
                      Inl e \<Rightarrow> Inl e
                    | Inr emb \<Rightarrow>
                        (let emb = mul_mask emb emb_mask_in
                         in (case dropout emb (1 - chr_dropout_rate hp) (noise2 fp) of
                               Inl e \<Rightarrow> Inl e
                             | Inr encoder_input \<Rightarrow>
                                 (let emb = conv1d emb (hidden_size hp) 1 (\<lambda>a. a)
                                              (variables fp Restored_embedding);
                                      emb = mul_mask emb emb_mask_in
                                  in Inr emb)))))))"

subsection \<open>Hyperparameter presets\<close>

text \<open>\<open>transformer_chrawr_base\<close>, restricted to the fields the module reads.\<close>

definition transformer_chrawr_base :: hparams where
  "transformer_chrawr_base =
     \<lparr>num_highway_layers = 4,
      reduced_input_size = 128,
      hidden_size = 512,
      chr_kernels = [1, 2, 3, 4, 5, 6, 7, 8],
      chr_kernel_features = [200, 200, 250, 250, 300, 300, 300, 300],
      chr_maxpool_size = 5,
      chr_nonlinearity = tanh,
      chr_dropout_rate = 0,
      chr_pos_enc = False\<rparr>"

subsection \<open>The highway stack as the specification words it\<close>

text \<open>
  The specification describes a layer position by position: a transform gate
  \<open>t = sigmoid(linear_i(input))\<close>, a candidate \<open>g = nonlinearity(linear'_i(input))\<close> from
  a separately parameterized projection, and the output \<open>t * g + (1 - t) * input\<close>,
  which is the input of the next layer; after \<open>N\<close> layers the last output is returned.
  These definitions follow that wording, to be compared with \<open>highway\<close> above.
\<close>

definition spec_linear :: "conv_weights \<Rightarrow> nat \<Rightarrow> vec \<Rightarrow> vec" where
  "spec_linear w W v =
     map (\<lambda>out. bias w out + (\<Sum>i\<leftarrow>[0..<length v]. kernel w 0 i out * v ! i)) [0..<W]"

definition spec_highway_position ::
  "hparams \<Rightarrow> (var_name \<Rightarrow> conv_weights) \<Rightarrow> nat \<Rightarrow> nat \<Rightarrow> vec \<Rightarrow> vec" where
  "spec_highway_position hp vars W i v =
     (let t = map sigmoid (spec_linear (vars (Highway_lin i)) W v);
          g = map (chr_nonlinearity hp) (spec_linear (vars (Highway_gate i)) W v)
      in map (\<lambda>c. t ! c * g ! c + (1 - t ! c) * v ! c) [0..<W])"

definition spec_highway_layer ::
  "hparams \<Rightarrow> (var_name \<Rightarrow> conv_weights) \<Rightarrow> nat \<Rightarrow> nat \<Rightarrow> tensor \<Rightarrow> tensor" where
  "spec_highway_layer hp vars W i x = map (map (spec_highway_position hp vars W i)) x"

definition spec_highway ::
  "hparams \<Rightarrow> (var_name \<Rightarrow> conv_weights) \<Rightarrow> nat \<Rightarrow> nat \<Rightarrow> tensor \<Rightarrow> tensor" where
  "spec_highway hp vars W N x = fold (spec_highway_layer hp vars W) [0..<N] x"

subsection \<open>Example inputs\<close>

text \<open>
  A small configuration with two kernels and pooling by 2, variables that are 1
  everywhere, and a batch of two sequences of four positions, the last two positions
  of the first sequence being padding.
\<close>

definition example_vars :: "var_name \<Rightarrow> conv_weights" where
  "example_vars n = \<lparr>kernel = (\<lambda>j i out. 1), bias = (\<lambda>out. 1)\<rparr>"

definition example_pass :: forward_pass where
  "example_pass =
     \<lparr>variables = example_vars, timing_signal = (\<lambda>C t c. 0),
      noise1 = (\<lambda>b t c. 1 / 2), noise2 = (\<lambda>b t c. 0)\<rparr>"

definition example_hparams :: hparams where
  "example_hparams =
     \<lparr>num_highway_layers = 1, reduced_input_size = 1, hidden_size = 2,
      chr_kernels = [1, 2], chr_kernel_features = [1, 1], chr_maxpool_size = 2,
      chr_nonlinearity = (\<lambda>a. a), chr_dropout_rate = 0, chr_pos_enc = False\<rparr>"

definition example_emb :: tensor where
  "example_emb = [[[1], [1], [0], [0]], [[1], [1], [1], [1]]]"

section \<open>Shapes\<close>

lemma has_shape_nth:
  "has_shape x B T C \<longleftrightarrow>
     length x = B \<and> (\<forall>b<B. length (x ! b) = T \<and> (\<forall>t<T. length (x ! b ! t) = C))"
  unfolding has_shape_def by (auto simp: in_set_conv_nth) (metis nth_mem)+

lemma tensor_eqI:
  assumes "has_shape x B T C" "has_shape y B T C"
    and "\<And>b t c. b < B \<Longrightarrow> t < T \<Longrightarrow> c < C \<Longrightarrow> x ! b ! t ! c = y ! b ! t ! c"
  shows "x = y"
  using assms unfolding has_shape_nth by (simp add: list_eq_iff_nth_eq)

lemma has_shape_conv1d:
  "has_shape x B T C \<Longrightarrow> has_shape (conv1d x f k a w) B T f"
  unfolding has_shape_def conv1d_def by auto

lemma has_shape_embedding_mask:
  "has_shape x B T C \<Longrightarrow> has_shape (embedding_mask x) B T 1"
  unfolding has_shape_def embedding_mask_def by auto

lemma length_mul_vec: "length m = 1 \<Longrightarrow> length (mul_vec v m) = length v"
  by (cases m) (auto simp: mul_vec_def split: list.splits)

lemma has_shape_mul_mask:
  "has_shape x B T C \<Longrightarrow> has_shape m B T 1 \<Longrightarrow> has_shape (mul_mask x m) B T C"
  unfolding has_shape_nth mul_mask_def by (simp add: length_mul_vec)

lemma has_shape_tmap: "has_shape x B T C \<Longrightarrow> has_shape (tmap f x) B T C"
  unfolding has_shape_def tmap_def by auto

lemma has_shape_tmap2:
  "has_shape x B T C \<Longrightarrow> has_shape y B T C \<Longrightarrow> has_shape (tmap2 f x y) B T C"
  unfolding has_shape_nth tmap2_def by simp

lemma has_shape_imap: "has_shape x B T C \<Longrightarrow> has_shape (imap f x) B T C"
  unfolding has_shape_nth imap_def by simp

lemma nth_tmap2:
  assumes "has_shape x B T C" "has_shape y B T C" "b < B" "t < T" "c < C"
  shows "tmap2 f x y ! b ! t ! c = f (x ! b ! t ! c) (y ! b ! t ! c)"
  using assms unfolding has_shape_nth tmap2_def by simp

lemma nth_tmap:
  assumes "has_shape x B T C" "b < B" "t < T" "c < C"
  shows "tmap f x ! b ! t ! c = f (x ! b ! t ! c)"
  using assms unfolding has_shape_nth tmap_def by simp

section \<open>The padding mask\<close>

lemma sum_abs_eq_0_iff: "(\<Sum>a\<leftarrow>v. \<bar>a :: real\<bar>) = 0 \<longleftrightarrow> (\<forall>a\<in>set v. a = 0)"
proof -
  have "(\<Sum>a\<leftarrow>v. \<bar>a\<bar>) = 0 \<longleftrightarrow> (\<forall>x\<in>set (map abs v). x = 0)"
    by (rule sum_list_nonneg_eq_0_iff) auto
  then show ?thesis by auto
qed

lemma map2_map_same: "map2 f xs (map g xs) = map (\<lambda>x. f x (g x)) xs"
  by (induction xs) auto

lemma mask_of_masked_vec:
  "(\<Sum>a\<leftarrow>mul_vec v [if (\<Sum>a\<leftarrow>v. \<bar>a\<bar>) \<noteq> 0 then 1 else 0]. \<bar>a\<bar>) \<noteq> 0 \<longleftrightarrow>
   (\<Sum>a\<leftarrow>v. \<bar>a\<bar>) \<noteq> 0"
  by (simp add: mul_vec_def sum_abs_eq_0_iff o_def)

text \<open>
  Claim C1. The mask has the batch and time shape of the embedding. Its entry at
  \<open>(b, t)\<close> is \<open>[1]\<close> iff the sum of the absolute values of the feature vector at
  \<open>(b, t)\<close> is not 0, and \<open>[0]\<close> iff that sum is 0, which is the case iff the vector is
  all zero; every entry is one of the two. When no position is all zero, the mask
  is 1 everywhere.
\<close>

theorem embedding_mask_correct:
  "length (embedding_mask emb) = length emb \<and>
   (\<forall>b<length emb.
      length (embedding_mask emb ! b) = length (emb ! b) \<and>
      (\<forall>t<length (emb ! b).
         (embedding_mask emb ! b ! t = [1] \<longleftrightarrow> (\<Sum>a\<leftarrow>emb ! b ! t. \<bar>a\<bar>) \<noteq> 0) \<and>
         (embedding_mask emb ! b ! t = [0] \<longleftrightarrow> (\<Sum>a\<leftarrow>emb ! b ! t. \<bar>a\<bar>) = 0) \<and>
         (embedding_mask emb ! b ! t = [0] \<longleftrightarrow> (\<forall>a\<in>set (emb ! b ! t). a = 0)) \<and>
         (embedding_mask emb ! b ! t = [1] \<or> embedding_mask emb ! b ! t = [0]))) \<and>
   ((\<forall>r\<in>set emb. \<forall>v\<in>set r. \<exists>a\<in>set v. a \<noteq> 0) \<longrightarrow>
      embedding_mask emb = map (map (\<lambda>v. [1])) emb)"
proof -
  have all1: "embedding_mask emb = map (map (\<lambda>v. [1])) emb"
    if "\<forall>r\<in>set emb. \<forall>v\<in>set r. \<exists>a\<in>set v. a \<noteq> 0"
    using that unfolding embedding_mask_def
    by (auto simp: sum_abs_eq_0_iff simp del: sum_list_eq_0_iff)
  show ?thesis
    using all1 unfolding embedding_mask_def
    by (simp add: sum_abs_eq_0_iff del: sum_list_eq_0_iff)
qed

theorem embedding_mask_correct_witness:
  "(0 :: nat) < length [[[1, - 2], [0, 0]], [[0, 3], [4, 5 :: real]]] \<and>
   (1 :: nat) < length ([[[1, - 2], [0, 0]], [[0, 3], [4, 5 :: real]]] ! 0) \<and>
   embedding_mask [[[1, - 2], [0, 0]], [[0, 3], [4, 5]]] ! 0 ! 1 = [0] \<and>
   embedding_mask [[[1, - 2], [0, 0]], [[0, 3], [4, 5]]] ! 0 ! 0 = [1] \<and>
   embedding_mask [[[0, 3]], [[4, 5]]] = [[[1]], [[1]]]"
  using embedding_mask_correct [of "[[[1, - 2], [0, 0]], [[0, 3], [4, 5]]]"]
    embedding_mask_correct [of "[[[0, 3]], [[4, 5]]]"]
  by (simp add: nth_Cons')

text \<open>
  Claim C9. Masking is idempotent: the mask of the masked tensor
  \<open>e * embedding_mask(e)\<close> is the mask of \<open>e\<close>.
\<close>

theorem embedding_mask_idempotent:
  "embedding_mask (mul_mask e (embedding_mask e)) = embedding_mask e"
  unfolding embedding_mask_def mul_mask_def
  by (simp add: map2_map_same mask_of_masked_vec o_def del: sum_list_eq_0_iff)

section \<open>The highway stack\<close>

lemma has_shape_highway_layer:
  "has_shape x B T W \<Longrightarrow> has_shape (highway_layer hp vars W idx x) B T W"
  unfolding highway_layer_def Let_def
  by (intro has_shape_tmap2 has_shape_tmap has_shape_conv1d)

lemma conv1d_at_1:
  "t < length xs \<Longrightarrow>
   conv1d_at w (Suc 0) xs t out =
     bias w out + (\<Sum>i\<leftarrow>[0..<length (xs ! t)]. kernel w 0 i out * xs ! t ! i)"
  by (simp add: conv1d_at_def)

lemma length_spec_linear: "length (spec_linear w W v) = W"
  by (simp add: spec_linear_def)

text \<open>A convolution of kernel size 1 is the linear projection of each position.\<close>

lemma nth_conv1d_1:
  assumes "has_shape x B T C" "b < B" "t < T" "c < f"
  shows "conv1d x f 1 a w ! b ! t ! c = a (spec_linear w f (x ! b ! t) ! c)"
  using assms unfolding has_shape_nth conv1d_def spec_linear_def
  by (simp add: conv1d_at_1)

lemma has_shape_spec_highway_layer:
  "has_shape x B T C \<Longrightarrow> has_shape (spec_highway_layer hp vars W i x) B T W"
  unfolding has_shape_def spec_highway_layer_def spec_highway_position_def
  by (auto simp: Let_def)

lemma highway_layer_spec:
  assumes "has_shape x B T W"
  shows "highway_layer hp vars W idx x = spec_highway_layer hp vars W idx x"
proof (rule tensor_eqI [where B = B and T = T and C = W])
  show "has_shape (highway_layer hp vars W idx x) B T W"
    by (rule has_shape_highway_layer [OF assms])
  show "has_shape (spec_highway_layer hp vars W idx x) B T W"
    by (rule has_shape_spec_highway_layer [OF assms])
  fix b t c assume b: "b < B" and t: "t < T" and c: "c < W"
  let ?t = "conv1d x W 1 sigmoid (vars (Highway_lin idx))"
  let ?g = "conv1d x W 1 (chr_nonlinearity hp) (vars (Highway_gate idx))"
  have st: "has_shape ?t B T W" and sg: "has_shape ?g B T W"
    by (rule has_shape_conv1d [OF assms])+
  have "highway_layer hp vars W idx x ! b ! t ! c =
          ?t ! b ! t ! c * ?g ! b ! t ! c + (1 - ?t ! b ! t ! c) * x ! b ! t ! c"
    by (simp only: highway_layer_def Let_def
        nth_tmap2 [OF has_shape_tmap2 [OF st sg]
          has_shape_tmap2 [OF has_shape_tmap [OF st] assms] b t c]
        nth_tmap2 [OF st sg b t c] nth_tmap2 [OF has_shape_tmap [OF st] assms b t c]
        nth_tmap [OF st b t c])
  also have "\<dots> = spec_highway_layer hp vars W idx x ! b ! t ! c"
    unfolding nth_conv1d_1 [OF assms b t c] using assms b t c
    by (simp add: spec_highway_layer_def spec_highway_position_def Let_def
        length_spec_linear has_shape_nth)
  finally show "highway_layer hp vars W idx x ! b ! t ! c =
                spec_highway_layer hp vars W idx x ! b ! t ! c" .
qed

text \<open>The loop: \<open>inputs\<close> runs through the layers, \<open>output\<close> is bound by the first one.\<close>

lemma highway_loop_fold:
  "highway_loop hp vars W idxs (x, out) =
     (fold (highway_layer hp vars W) idxs x,
      if idxs = [] then out else Some (fold (highway_layer hp vars W) idxs x))"
  by (induction idxs arbitrary: x out) (auto simp: Let_def)

lemma has_shape_fold_highway:
  "has_shape x B T W \<Longrightarrow> has_shape (fold (highway_layer hp vars W) idxs x) B T W"
  by (induction idxs arbitrary: x) (auto intro: has_shape_highway_layer)

lemma fold_highway_spec:
  "has_shape x B T W \<Longrightarrow>
   fold (highway_layer hp vars W) idxs x = fold (spec_highway_layer hp vars W) idxs x"
  by (induction idxs arbitrary: x)
    (auto simp: highway_layer_spec dest: has_shape_spec_highway_layer)

lemma highway_returns:
  assumes "1 \<le> num_highway_layers hp" and "has_shape inputs B T W"
  shows "highway inputs W hp vars =
           Inr (fold (highway_layer hp vars W) [0..<nat (num_highway_layers hp)] inputs)"
proof -
  have "[0..<nat (num_highway_layers hp)] \<noteq> []" using assms(1) by simp
  then show ?thesis
    unfolding highway_def by (simp add: highway_loop_fold del: upt_eq_Nil_conv)
qed

text \<open>
  Claim C4. With \<open>N \<ge> 1\<close> layers, on an input of shape \<open>[B, T, W]\<close> and with
  \<open>size = W\<close> (as the pipeline calls it), \<open>highway\<close> returns the result of the \<open>N\<close>
  layers of the specification applied in sequence, layer \<open>i\<close> computing
  \<open>t * g + (1 - t) * input\<close> from its own two projections; the result has the shape
  \<open>[B, T, W]\<close> of the input.
\<close>

theorem highway_layers:
  assumes "1 \<le> num_highway_layers hp" and "has_shape inputs B T W"
  shows "highway inputs W hp vars =
           Inr (spec_highway hp vars W (nat (num_highway_layers hp)) inputs) \<and>
         has_shape (spec_highway hp vars W (nat (num_highway_layers hp)) inputs) B T W"
proof -
  have "has_shape (fold (highway_layer hp vars W) [0..<nat (num_highway_layers hp)] inputs)
          B T W"
    by (rule has_shape_fold_highway [OF assms(2)])
  then show ?thesis
    by (simp add: highway_returns [OF assms] fold_highway_spec [OF assms(2)]
        spec_highway_def)
qed

theorem highway_layers_witness:
  "1 \<le> num_highway_layers transformer_chrawr_base \<and>
   has_shape [[[1, 2], [0, 0]]] 1 2 2 \<and>
   highway [[[1, 2], [0, 0]]] 2 transformer_chrawr_base
       (\<lambda>n. \<lparr>kernel = (\<lambda>j i out. 1), bias = (\<lambda>out. - 2)\<rparr>) =
     Inr (spec_highway transformer_chrawr_base
            (\<lambda>n. \<lparr>kernel = (\<lambda>j i out. 1), bias = (\<lambda>out. - 2)\<rparr>) 2 4 [[[1, 2], [0, 0]]]) \<and>
   has_shape (spec_highway transformer_chrawr_base
                (\<lambda>n. \<lparr>kernel = (\<lambda>j i out. 1), bias = (\<lambda>out. - 2)\<rparr>) 2 4 [[[1, 2], [0, 0]]])
     1 2 2"
  using highway_layers [of transformer_chrawr_base "[[[1, 2], [0, 0]]]" 1 2 2
      "\<lambda>n. \<lparr>kernel = (\<lambda>j i out. 1), bias = (\<lambda>out. - 2)\<rparr>"]
  by (simp add: transformer_chrawr_base_def has_shape_def)

text \<open>
  Claim C10. With a layer count of 0 the loop body never runs, \<open>output\<close> is never
  assigned and the call fails (\<open>UnboundLocalError\<close>) instead of returning its input,
  whatever the input is; with a layer count of at least 1, on an input of shape
  \<open>[B, T, W]\<close> and with \<open>size = W\<close>, the call returns a tensor, of that shape.
\<close>

theorem highway_zero_layers:
  "(num_highway_layers hp = 0 \<longrightarrow> highway inputs W hp vars = Inl UnboundLocalError) \<and>
   (1 \<le> num_highway_layers hp \<and> has_shape inputs B T W \<longrightarrow>
      (\<exists>output. highway inputs W hp vars = Inr output \<and> has_shape output B T W))"
proof (intro conjI impI)
  assume "num_highway_layers hp = 0"
  then show "highway inputs W hp vars = Inl UnboundLocalError"
    by (simp add: highway_def)
next
  assume a: "1 \<le> num_highway_layers hp \<and> has_shape inputs B T W"
  then have "has_shape
      (fold (highway_layer hp vars W) [0..<nat (num_highway_layers hp)] inputs) B T W"
    by (simp add: has_shape_fold_highway)
  moreover have "highway inputs W hp vars =
      Inr (fold (highway_layer hp vars W) [0..<nat (num_highway_layers hp)] inputs)"
    using a by (intro highway_returns) auto
  ultimately show "\<exists>output. highway inputs W hp vars = Inr output \<and> has_shape output B T W"
    by blast
qed

theorem highway_zero_layers_witness:
  "num_highway_layers (transformer_chrawr_base\<lparr>num_highway_layers := 0\<rparr>) = 0 \<and>
   highway [[[1, 2]]] 2 (transformer_chrawr_base\<lparr>num_highway_layers := 0\<rparr>)
       (\<lambda>n. \<lparr>kernel = (\<lambda>j i out. 1), bias = (\<lambda>out. - 2)\<rparr>) = Inl UnboundLocalError \<and>
   1 \<le> num_highway_layers transformer_chrawr_base \<and>
   has_shape [[[1, 2]]] 1 1 2 \<and>
   (\<exists>output. highway [[[1, 2]]] 2 transformer_chrawr_base
       (\<lambda>n. \<lparr>kernel = (\<lambda>j i out. 1), bias = (\<lambda>out. - 2)\<rparr>) = Inr output \<and>
      has_shape output 1 1 2)"
  using highway_zero_layers [of "transformer_chrawr_base\<lparr>num_highway_layers := 0\<rparr>"
      "[[[1, 2]]]" 2 "\<lambda>n. \<lparr>kernel = (\<lambda>j i out. 1), bias = (\<lambda>out. - 2)\<rparr>"]
    highway_zero_layers [where hp = transformer_chrawr_base and inputs = "[[[1, 2]]]"
      and B = 1 and T = 1 and W = 2
      and vars = "\<lambda>n. \<lparr>kernel = (\<lambda>j i out. 1), bias = (\<lambda>out. - 2)\<rparr>"]
  by (simp add: transformer_chrawr_base_def has_shape_def)

section \<open>Pooling\<close>

lemma length_foldl_map2_max:
  "length v = C \<Longrightarrow> \<forall>u\<in>set rest. length u = C \<Longrightarrow> length (foldl (map2 max) v rest) = C"
  by (induction rest arbitrary: v) auto

lemma length_window_max:
  "vs \<noteq> [] \<Longrightarrow> \<forall>v\<in>set vs. length v = C \<Longrightarrow> length (window_max vs) = C"
  by (cases vs) (auto simp: window_max_def length_foldl_map2_max)

lemma windows_below:
  fixes T p :: nat
  assumes "0 < p" "i < (T + p - 1) div p"
  shows "i * p < T"
proof -
  have "Suc i \<le> (T + p - 1) div p" using assms by simp
  then have "Suc i * p \<le> (T + p - 1) div p * p" by (rule mult_le_mono1)
  also have "\<dots> \<le> T + p - 1" by simp
  finally show ?thesis using assms by simp
qed

lemma pad_before_less:
  fixes T p :: nat
  assumes "0 < p" "0 < T"
  shows "(((T + p - 1) div p - 1) * p + p - T) div 2 < p"
proof -
  have "0 < (T + p - 1) div p" using assms by (simp add: div_greater_zero_iff)
  then have "(T + p - 1) div p - 1 < (T + p - 1) div p" by simp
  from windows_below [OF assms(1) this] have "((T + p - 1) div p - 1) * p < T" .
  then show ?thesis using assms by linarith
qed

lemma length_pool_row: "length (pool_row p p xs) = (length xs + p - 1) div p"
  by (simp add: pool_row_def Let_def)

lemma width_pool_row:
  assumes "0 < p" "\<forall>v\<in>set xs. length v = C" "u \<in> set (pool_row p p xs)"
  shows "length u = C"
proof -
  define T where "T = length xs"
  define pb where "pb = (((T + p - 1) div p - 1) * p + p - T) div 2"
  from assms(3) obtain i where i: "i < (T + p - 1) div p"
    and u: "u = window_max (map (\<lambda>s. xs ! s) [i * p - pb ..< min T (i * p + p - pb)])"
    by (auto simp: pool_row_def Let_def T_def pb_def)
  have T: "0 < T" using i by (cases "T = 0") (use assms(1) in auto)
  have pb: "pb < p" unfolding pb_def by (rule pad_before_less [OF assms(1) T])
  have "i * p < T" by (rule windows_below [OF assms(1) i])
  then have ne: "i * p - pb < min T (i * p + p - pb)" using pb by linarith
  have "length (window_max (map (\<lambda>s. xs ! s) [i * p - pb ..< min T (i * p + p - pb)])) = C"
  proof (rule length_window_max)
    show "map (\<lambda>s. xs ! s) [i * p - pb ..< min T (i * p + p - pb)] \<noteq> []"
      using ne by (simp del: min_less_iff_conj)
    show "\<forall>v\<in>set (map (\<lambda>s. xs ! s) [i * p - pb ..< min T (i * p + p - pb)]). length v = C"
      using assms(2) by (auto simp: T_def)
  qed
  then show ?thesis using u by simp
qed

lemma has_shape_pool:
  assumes "0 < p" "has_shape x B T C"
  shows "has_shape (map (pool_row p p) x) B ((T + p - 1) div p) C"
  using assms unfolding has_shape_def
  by (auto simp: length_pool_row dest: width_pool_row)

lemma ceiling_div_nat:
  fixes T p :: nat
  assumes "0 < p"
  shows "int ((T + p - 1) div p) = \<lceil>real T / real p\<rceil>"
proof -
  define q where "q = (T + p - 1) div p"
  have up: "T \<le> q * p"
  proof -
    have "T + p - 1 < (q + 1) * p"
      unfolding q_def using assms
      by (metis Suc_eq_plus1 dividend_less_div_times mult.commute add.commute mult_Suc)
    then show ?thesis using assms by simp
  qed
  have lo: "real q - 1 < real T / real p"
  proof (cases "q = 0")
    case True
    have "0 \<le> real T / real p" by simp
    then show ?thesis using True by linarith
  next
    case False
    then have "q - 1 < (T + p - 1) div p" by (simp add: q_def)
    from windows_below [OF assms this] have "(q - 1) * p < T" .
    then have "real ((q - 1) * p) < real T" by (simp only: of_nat_less_iff)
    then have "(real q - 1) * real p < real T" using False by (simp add: of_nat_diff)
    then show ?thesis using assms by (simp add: pos_less_divide_eq)
  qed
  have "real T \<le> real (q * p)" using up by (simp only: of_nat_le_iff)
  then have "real T / real p \<le> real q" using assms by (simp add: pos_divide_le_eq)
  with lo have "\<lceil>real T / real p\<rceil> = int q"
    by (intro ceiling_unique) auto
  then show ?thesis by (simp add: q_def)
qed

section \<open>The convolutional feature extractor\<close>

lemma conv_branch_value:
  assumes "0 < chr_maxpool_size hp"
  shows "conv_branch inputs hp input_mask vars k f =
           Inr (map (pool_row (chr_maxpool_size hp) (chr_maxpool_size hp))
                  (mul_mask (conv1d inputs f k (chr_nonlinearity hp) (vars (Kernel k)))
                     input_mask))"
  using assms by (simp add: conv_branch_def max_pooling1d_def)

lemma conv_branch_Inr_pool:
  "conv_branch inputs hp input_mask vars k f = Inr pool \<Longrightarrow> 0 < chr_maxpool_size hp"
  by (auto simp: conv_branch_def max_pooling1d_def split: if_splits)

lemma has_shape_conv_branch:
  assumes "0 < chr_maxpool_size hp" "has_shape inputs B T C" "has_shape input_mask B T 1"
    and "conv_branch inputs hp input_mask vars k f = Inr pool"
  shows "has_shape pool B ((T + chr_maxpool_size hp - 1) div chr_maxpool_size hp) f"
proof -
  have "has_shape (mul_mask (conv1d inputs f k (chr_nonlinearity hp) (vars (Kernel k))) input_mask)
          B T f"
    by (rule has_shape_mul_mask [OF has_shape_conv1d [OF assms(2)] assms(3)])
  from has_shape_pool [OF assms(1) this] show ?thesis
    using assms(4) by (simp add: conv_branch_value [OF assms(1)])
qed

lemma conv_emb_loop_value:
  assumes "0 < chr_maxpool_size hp"
  shows "distinct (map fst kfs) \<Longrightarrow> set (map fst kfs) \<inter> set created = {} \<Longrightarrow>
     \<exists>pools. conv_emb_loop inputs hp input_mask vars kfs created layers = Inr (layers @ pools) \<and>
       list_all2 (\<lambda>kf pool. conv_branch inputs hp input_mask vars (fst kf) (snd kf) = Inr pool)
         kfs pools"
proof (induction kfs arbitrary: created layers)
  case Nil
  then show ?case by simp
next
  case (Cons kf kfs)
  obtain k f where kf: "kf = (k, f)" by (cases kf)
  obtain pool where pool: "conv_branch inputs hp input_mask vars k f = Inr pool"
    using conv_branch_value [OF assms] by blast
  have "distinct (map fst kfs)" and "set (map fst kfs) \<inter> set (created @ [k]) = {}"
    using Cons.prems by (auto simp: kf)
  from Cons.IH [OF this, of "layers @ [pool]"] obtain pools where
    "conv_emb_loop inputs hp input_mask vars kfs (created @ [k]) (layers @ [pool]) =
       Inr ((layers @ [pool]) @ pools)"
    and "list_all2 (\<lambda>kf pool. conv_branch inputs hp input_mask vars (fst kf) (snd kf) = Inr pool)
           kfs pools"
    by blast
  moreover have "k \<notin> set created" using Cons.prems by (auto simp: kf)
  ultimately show ?case
    by (intro exI [of _ "pool # pools"]) (simp add: kf pool)
qed

lemma conv_emb_loop_Inr:
  "conv_emb_loop inputs hp input_mask vars kfs created layers = Inr r \<Longrightarrow>
   distinct (map fst kfs) \<and> set (map fst kfs) \<inter> set created = {} \<and>
   length r = length layers + length kfs \<and>
   (kfs \<noteq> [] \<longrightarrow> 0 < chr_maxpool_size hp)"
proof (induction kfs arbitrary: created layers)
  case Nil
  then show ?case by simp
next
  case (Cons kf kfs)
  obtain k f where kf: "kf = (k, f)" by (cases kf)
  from Cons.prems have fresh: "k \<notin> set created" by (auto simp: kf split: if_splits)
  with Cons.prems obtain pool where pool: "conv_branch inputs hp input_mask vars k f = Inr pool"
    and rest: "conv_emb_loop inputs hp input_mask vars kfs (created @ [k]) (layers @ [pool]) = Inr r"
    by (auto simp: kf split: sum.splits)
  from Cons.IH [OF rest] conv_branch_Inr_pool [OF pool] fresh show ?case
    by (auto simp: kf)
qed

lemma has_shape_append_channels:
  assumes "has_shape x B T c" "has_shape y B T f"
  shows "has_shape (map2 (map2 (@)) x y) B T (c + f)"
  using assms unfolding has_shape_nth by simp

lemma has_shape_foldl_concat:
  "has_shape l B T c \<Longrightarrow> list_all2 (\<lambda>x f. has_shape x B T f) ls fs \<Longrightarrow>
   has_shape (foldl (map2 (map2 (@))) l ls) B T (c + sum_list fs)"
proof (induction ls arbitrary: l c fs)
  case Nil
  then show ?case by simp
next
  case (Cons x ls)
  then obtain f fs' where fs: "fs = f # fs'" and x: "has_shape x B T f"
    and rest: "list_all2 (\<lambda>x f. has_shape x B T f) ls fs'"
    by (auto simp: list_all2_Cons1)
  from Cons.IH [OF has_shape_append_channels [OF Cons.prems(1) x] rest]
  show ?case by (simp add: fs add.assoc)
qed

lemma has_shape_concat_channels:
  assumes "list_all2 (\<lambda>x f. has_shape x B T f) layers fs" "layers \<noteq> []"
  shows "\<exists>out. concat_channels layers = Inr out \<and> has_shape out B T (sum_list fs)"
proof -
  from assms obtain l ls f fs' where "layers = l # ls" "fs = f # fs'" "has_shape l B T f"
    "list_all2 (\<lambda>x f. has_shape x B T f) ls fs'"
    by (cases layers) (auto simp: list_all2_Cons1)
  then show ?thesis
    using has_shape_foldl_concat [of l B T f ls fs'] by (simp add: concat_channels_def)
qed

lemma pools_shapes:
  assumes "0 < chr_maxpool_size hp" "has_shape inputs B T C" "has_shape input_mask B T 1"
    and "length ks = length fs"
    and "list_all2 (\<lambda>kf pool. conv_branch inputs hp input_mask vars (fst kf) (snd kf) = Inr pool)
           (zip ks fs) pools"
  shows "list_all2
           (\<lambda>pool f. has_shape pool B ((T + chr_maxpool_size hp - 1) div chr_maxpool_size hp) f)
           pools fs"
  using assms(4,5)
proof (induction ks fs arbitrary: pools rule: list_induct2)
  case Nil
  then show ?case by simp
next
  case (Cons k ks f fs)
  from Cons.prems obtain z zs where pools: "pools = z # zs"
    and z: "conv_branch inputs hp input_mask vars k f = Inr z"
    and zs: "list_all2
               (\<lambda>kf pool. conv_branch inputs hp input_mask vars (fst kf) (snd kf) = Inr pool)
               (zip ks fs) zs"
    by (auto simp: list_all2_Cons1)
  from has_shape_conv_branch [OF assms(1-3) z] Cons.IH [OF zs] show ?case
    by (simp add: pools)
qed

lemma conv_emb_Inr_config:
  assumes "conv_emb inputs hp input_mask vars = Inr out"
  shows "length (chr_kernels hp) = length (chr_kernel_features hp) \<and>
         chr_kernels hp \<noteq> [] \<and> distinct (chr_kernels hp) \<and> 0 < chr_maxpool_size hp"
proof -
  let ?kfs = "zip (chr_kernels hp) (chr_kernel_features hp)"
  from assms have len: "length (chr_kernels hp) = length (chr_kernel_features hp)"
    by (auto simp: conv_emb_def split: if_splits)
  with assms obtain layers where loop: "conv_emb_loop inputs hp input_mask vars ?kfs [] [] = Inr layers"
    and fin: "(if length (chr_kernels hp) > 1 then concat_channels layers
               else (case layers of [] \<Rightarrow> Inl IndexError | l # _ \<Rightarrow> Inr l)) = Inr out"
    by (auto simp: conv_emb_def split: sum.splits)
  from conv_emb_loop_Inr [OF loop] have d: "distinct (map fst ?kfs)"
    and l: "length layers = length ?kfs" and p: "?kfs \<noteq> [] \<longrightarrow> 0 < chr_maxpool_size hp"
    by auto
  have ne: "chr_kernels hp \<noteq> []"
  proof
    assume "chr_kernels hp = []"
    then show False using fin l by simp
  qed
  then have "?kfs \<noteq> []" using len by (cases "chr_kernels hp"; cases "chr_kernel_features hp") auto
  with p d len ne show ?thesis by simp
qed

lemma conv_emb_value:
  assumes "length (chr_kernels hp) = length (chr_kernel_features hp)"
    and "distinct (chr_kernels hp)" and "0 < chr_maxpool_size hp"
  shows "\<exists>pools.
           list_all2
             (\<lambda>kf pool. conv_branch inputs hp input_mask vars (fst kf) (snd kf) = Inr pool)
             (zip (chr_kernels hp) (chr_kernel_features hp)) pools \<and>
           conv_emb inputs hp input_mask vars =
             (if length (chr_kernels hp) > 1 then concat_channels pools
              else (case pools of [] \<Rightarrow> Inl IndexError | l # _ \<Rightarrow> Inr l))"
proof -
  let ?kfs = "zip (chr_kernels hp) (chr_kernel_features hp)"
  have "map fst ?kfs = chr_kernels hp" using assms(1) by simp
  then obtain pools where "conv_emb_loop inputs hp input_mask vars ?kfs [] [] = Inr pools"
    and "list_all2
        (\<lambda>kf pool. conv_branch inputs hp input_mask vars (fst kf) (snd kf) = Inr pool)
        ?kfs pools"
    using conv_emb_loop_value [OF assms(3), of ?kfs "[]" inputs input_mask vars "[]"] assms(2)
    by auto
  then show ?thesis using assms(1) by (auto simp: conv_emb_def)
qed

lemma conv_emb_shape:
  assumes "length (chr_kernels hp) = length (chr_kernel_features hp)"
    and "chr_kernels hp \<noteq> []" and "distinct (chr_kernels hp)"
    and "0 < chr_maxpool_size hp"
    and "has_shape inputs B T C" and "has_shape input_mask B T 1"
  shows "\<exists>out. conv_emb inputs hp input_mask vars = Inr out \<and>
           has_shape out B ((T + chr_maxpool_size hp - 1) div chr_maxpool_size hp)
             (sum_list (chr_kernel_features hp))"
proof -
  let ?kfs = "zip (chr_kernels hp) (chr_kernel_features hp)"
  have fst: "map fst ?kfs = chr_kernels hp" using assms(1) by simp
  obtain pools where loop: "conv_emb_loop inputs hp input_mask vars ?kfs [] [] = Inr pools"
    and pools: "list_all2
        (\<lambda>kf pool. conv_branch inputs hp input_mask vars (fst kf) (snd kf) = Inr pool)
        ?kfs pools"
    using conv_emb_loop_value [OF assms(4), of ?kfs "[]" inputs input_mask vars "[]"] assms(3)
    by (auto simp: fst)
  have shapes: "list_all2
      (\<lambda>pool f. has_shape pool B ((T + chr_maxpool_size hp - 1) div chr_maxpool_size hp) f)
      pools (chr_kernel_features hp)"
    by (rule pools_shapes [OF assms(4-6) assms(1) pools])
  show ?thesis
  proof (cases "length (chr_kernels hp) > 1")
    case True
    have "pools \<noteq> []" using shapes True assms(1) by (auto dest!: list_all2_lengthD)
    from has_shape_concat_channels [OF shapes this] show ?thesis
      using loop True assms(1) by (auto simp: conv_emb_def)
  next
    case False
    with assms(1,2) obtain f where fs: "chr_kernel_features hp = [f]"
      by (cases "chr_kernels hp"; cases "chr_kernel_features hp") auto
    with shapes obtain pool where "pools = [pool]"
      "has_shape pool B ((T + chr_maxpool_size hp - 1) div chr_maxpool_size hp) f"
      by (auto simp: list_all2_Cons2)
    then show ?thesis
      using loop False assms(1) by (simp add: conv_emb_def fs)
  qed
qed

text \<open>
  Claim C5. On an input of shape \<open>[B, T, C]\<close> with a mask of shape \<open>[B, T, 1]\<close>:
  \<open>conv_emb\<close> returns a tensor when the two lists have the same length, at least one
  entry and distinct kernel sizes and the pooling size is positive. Whenever it
  returns, the output has \<open>sum(chr_kernel_features)\<close> channels; with exactly one
  branch the output is that branch's pooled output itself, of that kernel's feature
  count; with more than one branch it is the concatenation of the branch outputs
  along the channels.
\<close>

theorem conv_emb_channels:
  assumes "has_shape inputs B T C" and "has_shape input_mask B T 1"
  shows "(length (chr_kernels hp) = length (chr_kernel_features hp) \<and> chr_kernels hp \<noteq> [] \<and>
          distinct (chr_kernels hp) \<and> 0 < chr_maxpool_size hp \<longrightarrow>
            (\<exists>out. conv_emb inputs hp input_mask vars = Inr out)) \<and>
         (\<forall>out. conv_emb inputs hp input_mask vars = Inr out \<longrightarrow>
            has_shape out B ((T + chr_maxpool_size hp - 1) div chr_maxpool_size hp)
              (sum_list (chr_kernel_features hp)) \<and>
            (length (chr_kernels hp) = 1 \<longrightarrow>
               conv_branch inputs hp input_mask vars
                 (hd (chr_kernels hp)) (hd (chr_kernel_features hp)) = Inr out \<and>
               sum_list (chr_kernel_features hp) = hd (chr_kernel_features hp)) \<and>
            (length (chr_kernels hp) > 1 \<longrightarrow>
               (\<exists>layers.
                  list_all2
                    (\<lambda>kf pool. conv_branch inputs hp input_mask vars (fst kf) (snd kf) = Inr pool)
                    (zip (chr_kernels hp) (chr_kernel_features hp)) layers \<and>
                  length layers = length (chr_kernels hp) \<and>
                  concat_channels layers = Inr out)))"
proof (intro conjI allI impI)
  assume "length (chr_kernels hp) = length (chr_kernel_features hp) \<and> chr_kernels hp \<noteq> [] \<and>
          distinct (chr_kernels hp) \<and> 0 < chr_maxpool_size hp"
  then show "\<exists>out. conv_emb inputs hp input_mask vars = Inr out"
    using conv_emb_shape [OF _ _ _ _ assms, of hp vars] by blast
next
  fix out assume out: "conv_emb inputs hp input_mask vars = Inr out"
  note cfg = conv_emb_Inr_config [OF out]
  from cfg have len: "length (chr_kernels hp) = length (chr_kernel_features hp)"
    and ne: "chr_kernels hp \<noteq> []" and d: "distinct (chr_kernels hp)"
    and p: "0 < chr_maxpool_size hp"
    by simp_all
  from conv_emb_shape [OF len ne d p assms, of vars] out
  show "has_shape out B ((T + chr_maxpool_size hp - 1) div chr_maxpool_size hp)
          (sum_list (chr_kernel_features hp))"
    by simp
  from conv_emb_value [OF len d p, of inputs input_mask vars] obtain pools where
    pools: "list_all2
             (\<lambda>kf pool. conv_branch inputs hp input_mask vars (fst kf) (snd kf) = Inr pool)
             (zip (chr_kernels hp) (chr_kernel_features hp)) pools"
    and val: "conv_emb inputs hp input_mask vars =
             (if length (chr_kernels hp) > 1 then concat_channels pools
              else (case pools of [] \<Rightarrow> Inl IndexError | l # _ \<Rightarrow> Inr l))"
    by blast
  {
    assume one: "length (chr_kernels hp) = 1"
    with len obtain k f where ks: "chr_kernels hp = [k]" and fs: "chr_kernel_features hp = [f]"
      by (metis One_nat_def length_0_conv length_Suc_conv)
    from pools obtain pool where "pools = [pool]"
      "conv_branch inputs hp input_mask vars k f = Inr pool"
      by (auto simp: ks fs list_all2_Cons1)
    with val out
    show "conv_branch inputs hp input_mask vars
            (hd (chr_kernels hp)) (hd (chr_kernel_features hp)) = Inr out"
      by (simp add: ks fs)
    show "sum_list (chr_kernel_features hp) = hd (chr_kernel_features hp)"
      by (simp add: fs)
  }
  {
    assume more: "length (chr_kernels hp) > 1"
    have "length pools = length (chr_kernels hp)"
      using pools len by (auto dest!: list_all2_lengthD)
    with pools val out more
    show "\<exists>layers.
            list_all2
              (\<lambda>kf pool. conv_branch inputs hp input_mask vars (fst kf) (snd kf) = Inr pool)
              (zip (chr_kernels hp) (chr_kernel_features hp)) layers \<and>
            length layers = length (chr_kernels hp) \<and>
            concat_channels layers = Inr out"
      by auto
  }
qed

theorem conv_emb_channels_witness:
  "has_shape [[[1], [2], [3], [4], [5], [6]]] 1 6 1 \<and>
   has_shape [[[1], [1], [1], [1], [1], [1]]] 1 6 1 \<and>
   length (chr_kernels transformer_chrawr_base) =
     length (chr_kernel_features transformer_chrawr_base) \<and>
   chr_kernels transformer_chrawr_base \<noteq> [] \<and>
   distinct (chr_kernels transformer_chrawr_base) \<and>
   0 < chr_maxpool_size transformer_chrawr_base \<and>
   1 < length (chr_kernels transformer_chrawr_base) \<and>
   (\<exists>out layers.
      conv_emb [[[1], [2], [3], [4], [5], [6]]] transformer_chrawr_base
        [[[1], [1], [1], [1], [1], [1]]] example_vars = Inr out \<and>
      length layers = 8 \<and> concat_channels layers = Inr out \<and>
      has_shape out 1 2 2100) \<and>
   length (chr_kernels (transformer_chrawr_base\<lparr>chr_kernels := [3],
     chr_kernel_features := [250]\<rparr>)) = 1 \<and>
   (\<exists>out. conv_emb [[[1], [2], [3], [4], [5], [6]]]
             (transformer_chrawr_base\<lparr>chr_kernels := [3], chr_kernel_features := [250]\<rparr>)
             [[[1], [1], [1], [1], [1], [1]]] example_vars = Inr out \<and>
          conv_branch [[[1], [2], [3], [4], [5], [6]]]
             (transformer_chrawr_base\<lparr>chr_kernels := [3], chr_kernel_features := [250]\<rparr>)
             [[[1], [1], [1], [1], [1], [1]]] example_vars 3 250 = Inr out \<and>
          has_shape out 1 2 250)"
proof -
  let ?x = "[[[1], [2], [3], [4], [5], [6 :: real]]]"
  let ?m = "[[[1], [1], [1], [1], [1], [1 :: real]]]"
  let ?one = "transformer_chrawr_base\<lparr>chr_kernels := [3], chr_kernel_features := [250]\<rparr>"
  have sx: "has_shape ?x 1 6 1" and sm: "has_shape ?m 1 6 1"
    by (simp_all add: has_shape_def)
  note base = conv_emb_channels [OF sx sm, of transformer_chrawr_base example_vars]
  note one = conv_emb_channels [OF sx sm, of ?one example_vars]
  have cfg: "length (chr_kernels transformer_chrawr_base) =
       length (chr_kernel_features transformer_chrawr_base) \<and>
     chr_kernels transformer_chrawr_base \<noteq> [] \<and>
     distinct (chr_kernels transformer_chrawr_base) \<and>
     0 < chr_maxpool_size transformer_chrawr_base"
    and K: "1 < length (chr_kernels transformer_chrawr_base)"
      "length (chr_kernels transformer_chrawr_base) = 8"
    and T': "(6 + chr_maxpool_size transformer_chrawr_base - 1) div
               chr_maxpool_size transformer_chrawr_base = 2"
    and W: "sum_list (chr_kernel_features transformer_chrawr_base) = 2100"
    by (simp_all add: transformer_chrawr_base_def)
  from base cfg obtain out where out: "conv_emb ?x transformer_chrawr_base ?m example_vars = Inr out"
    by blast
  with base K(1) obtain layers where "length layers = length (chr_kernels transformer_chrawr_base)"
    "concat_channels layers = Inr out" by blast
  moreover from base out have "has_shape out 1 2 2100" unfolding T' W by blast
  ultimately have A: "\<exists>out layers.
      conv_emb ?x transformer_chrawr_base ?m example_vars = Inr out \<and>
      length layers = 8 \<and> concat_channels layers = Inr out \<and> has_shape out 1 2 2100"
    using out K(2) by auto
  have cfg1: "length (chr_kernels ?one) = length (chr_kernel_features ?one) \<and>
     chr_kernels ?one \<noteq> [] \<and> distinct (chr_kernels ?one) \<and> 0 < chr_maxpool_size ?one"
    and K1: "length (chr_kernels ?one) = 1"
    and T1: "(6 + chr_maxpool_size ?one - 1) div chr_maxpool_size ?one = 2"
    and W1: "sum_list (chr_kernel_features ?one) = 250"
    and hd1: "hd (chr_kernels ?one) = 3" "hd (chr_kernel_features ?one) = 250"
    by (simp_all add: transformer_chrawr_base_def)
  from one cfg1 obtain out1 where out1: "conv_emb ?x ?one ?m example_vars = Inr out1"
    by blast
  from one out1 K1 have "conv_branch ?x ?one ?m example_vars
      (hd (chr_kernels ?one)) (hd (chr_kernel_features ?one)) = Inr out1"
    by blast
  then have "conv_branch ?x ?one ?m example_vars 3 250 = Inr out1" unfolding hd1 .
  moreover from one out1 have "has_shape out1 1 2 250" unfolding T1 W1 by blast
  ultimately have B: "\<exists>out. conv_emb ?x ?one ?m example_vars = Inr out \<and>
      conv_branch ?x ?one ?m example_vars 3 250 = Inr out \<and> has_shape out 1 2 250"
    using out1 by blast
  from sx sm cfg K(1) A K1 B show ?thesis by blast
qed

text \<open>
  Claim C6. For a pooling size \<open>p \<ge> 1\<close> and \<open>L\<close> positions, the output of a branch
  (convolution, mask, same-padded max-pooling of window and stride \<open>p\<close>) has
  \<open>ceil(L / p)\<close> positions in every sequence of the batch.
\<close>

theorem pooled_time_dimension:
  assumes "0 < chr_maxpool_size hp"
    and "has_shape inputs B L C" and "has_shape input_mask B L 1"
  shows "\<exists>pool. conv_branch inputs hp input_mask vars k f = Inr pool \<and>
           length pool = B \<and>
           (\<forall>row\<in>set pool. int (length row) = \<lceil>real L / real (chr_maxpool_size hp)\<rceil>)"
proof -
  obtain pool where pool: "conv_branch inputs hp input_mask vars k f = Inr pool"
    using conv_branch_value [OF assms(1)] by blast
  from has_shape_conv_branch [OF assms pool]
  have "has_shape pool B ((L + chr_maxpool_size hp - 1) div chr_maxpool_size hp) f" .
  then show ?thesis
    using pool ceiling_div_nat [OF assms(1), of L] by (simp add: has_shape_def)
qed

theorem pooled_time_dimension_witness:
  "0 < chr_maxpool_size transformer_chrawr_base \<and>
   has_shape [[[1], [2], [3], [4], [5], [6]]] 1 6 1 \<and>
   has_shape [[[1], [1], [1], [1], [1], [1]]] 1 6 1 \<and>
   (\<exists>pool. conv_branch [[[1], [2], [3], [4], [5], [6]]] transformer_chrawr_base
              [[[1], [1], [1], [1], [1], [1]]] example_vars 3 250 = Inr pool \<and>
      length pool = 1 \<and> (\<forall>row\<in>set pool. length row = 2))"
  using pooled_time_dimension [of transformer_chrawr_base "[[[1], [2], [3], [4], [5], [6]]]" 1 6 1
      "[[[1], [1], [1], [1], [1], [1]]]" example_vars 3 250]
  by (auto simp: transformer_chrawr_base_def has_shape_def)

section \<open>The pipeline\<close>

lemma has_shape_dropout:
  "has_shape x B T C \<Longrightarrow> dropout x kp noise = Inr y \<Longrightarrow> has_shape y B T C"
  by (auto simp: dropout_def has_shape_imap split: if_splits)

lemma has_shape_highway:
  assumes "has_shape x B T W" "highway x W hp vars = Inr y"
  shows "has_shape y B T W"
proof -
  from assms(2) have "y = fold (highway_layer hp vars W) [0..<nat (num_highway_layers hp)] x"
    by (auto simp: highway_def highway_loop_fold split: if_splits)
  then show ?thesis by (simp add: has_shape_fold_highway [OF assms(1)])
qed

lemma has_shape_last_dim:
  assumes "has_shape x B T C"
  shows "has_shape x B T (last_dim x)"
proof (cases "B = 0 \<or> T = 0")
  case True
  then show ?thesis using assms by (auto simp: has_shape_def)
next
  case False
  with assms obtain r rs where x: "x = r # rs" by (cases x) (auto simp: has_shape_def)
  with assms False obtain v vs where r: "r = v # vs" by (cases r) (auto simp: has_shape_def)
  have "last_dim x = C" using assms by (simp add: last_dim_def x r has_shape_def)
  then show ?thesis using assms by simp
qed

lemma chrawr_conv_shape:
  assumes "has_shape emb B T C" and "chrawr_conv emb hp fp = Inr conv"
  shows "has_shape conv B ((T + chr_maxpool_size hp - 1) div chr_maxpool_size hp)
           (sum_list (chr_kernel_features hp))"
proof -
  let ?mask = "embedding_mask emb"
  let ?e1 = "conv1d emb (reduced_input_size hp) 1 (\<lambda>a. a) (variables fp Rescaled_embedding)"
  let ?e2 = "if chr_pos_enc hp then add_timing_signal_1d ?e1 (timing_signal fp) else ?e1"
  let ?e3 = "mul_mask ?e2 ?mask"
  have m: "has_shape ?mask B T 1" by (rule has_shape_embedding_mask [OF assms(1)])
  have "has_shape ?e1 B T (reduced_input_size hp)" by (rule has_shape_conv1d [OF assms(1)])
  then have "has_shape ?e2 B T (reduced_input_size hp)"
    by (simp add: add_timing_signal_1d_def has_shape_imap)
  then have e3: "has_shape ?e3 B T (reduced_input_size hp)" by (rule has_shape_mul_mask [OF _ m])
  from assms(2) have c: "conv_emb ?e3 hp ?mask (variables fp) = Inr conv"
    unfolding chrawr_conv_def Let_def .
  from conv_emb_Inr_config [OF c] conv_emb_shape [of hp ?e3 B T _ ?mask "variables fp"] e3 m c
  show ?thesis by auto
qed

lemma mul_vec_zero: "mul_vec v [0] = replicate (length v) 0"
  by (simp add: mul_vec_def map_replicate_const)

lemma nth_mul_mask:
  assumes "has_shape x B T C" "has_shape m B T 1" "b < B" "t < T"
  shows "mul_mask x m ! b ! t = mul_vec (x ! b ! t) (m ! b ! t)"
  using assms unfolding has_shape_nth mul_mask_def by simp

lemma chrawr_embedding_stages:
  assumes "chrawr_embedding emb hp fp = Inr out"
  shows "\<exists>conv e5 e6 enc.
           chrawr_conv emb hp fp = Inr conv \<and>
           dropout conv (1 - chr_dropout_rate hp) (noise1 fp) = Inr e5 \<and>
           highway e5 (last_dim e5) hp (variables fp) = Inr e6 \<and>
           dropout (mul_mask e6 (embedding_mask conv)) (1 - chr_dropout_rate hp) (noise2 fp) = Inr enc \<and>
           out = mul_mask
                   (conv1d (mul_mask e6 (embedding_mask conv)) (hidden_size hp) 1 (\<lambda>a. a)
                      (variables fp Restored_embedding))
                   (embedding_mask conv)"
  using assms unfolding chrawr_embedding_def Let_def
  by (auto split: sum.splits)

lemma dropout_returns:
  assumes "0 \<le> rate" "rate < 1"
  shows "\<exists>y. dropout x (1 - rate) noise = Inr y"
  using assms by (simp add: dropout_def)

lemma chrawr_embedding_returns:
  assumes "length (chr_kernels hp) = length (chr_kernel_features hp)"
    and "chr_kernels hp \<noteq> []" and "distinct (chr_kernels hp)"
    and "0 < chr_maxpool_size hp" and "1 \<le> num_highway_layers hp"
    and "0 \<le> chr_dropout_rate hp" and "chr_dropout_rate hp < 1"
    and "has_shape emb B T C"
  shows "\<exists>out. chrawr_embedding emb hp fp = Inr out"
proof -
  let ?mask = "embedding_mask emb"
  let ?e1 = "conv1d emb (reduced_input_size hp) 1 (\<lambda>a. a) (variables fp Rescaled_embedding)"
  let ?e2 = "if chr_pos_enc hp then add_timing_signal_1d ?e1 (timing_signal fp) else ?e1"
  let ?e3 = "mul_mask ?e2 ?mask"
  have m: "has_shape ?mask B T 1" by (rule has_shape_embedding_mask [OF assms(8)])
  have "has_shape ?e1 B T (reduced_input_size hp)" by (rule has_shape_conv1d [OF assms(8)])
  then have "has_shape ?e2 B T (reduced_input_size hp)"
    by (simp add: add_timing_signal_1d_def has_shape_imap)
  then have e3: "has_shape ?e3 B T (reduced_input_size hp)" by (rule has_shape_mul_mask [OF _ m])
  from conv_emb_shape [OF assms(1-4) e3 m] obtain conv where
    ce: "conv_emb ?e3 hp ?mask (variables fp) = Inr conv"
    and sc: "has_shape conv B ((T + chr_maxpool_size hp - 1) div chr_maxpool_size hp)
               (sum_list (chr_kernel_features hp))"
    by blast
  from ce have conv: "chrawr_conv emb hp fp = Inr conv" unfolding chrawr_conv_def Let_def .
  obtain e5 where e5: "dropout conv (1 - chr_dropout_rate hp) (noise1 fp) = Inr e5"
    using dropout_returns [OF assms(6,7)] by blast
  have "has_shape e5 B ((T + chr_maxpool_size hp - 1) div chr_maxpool_size hp) (last_dim e5)"
    by (rule has_shape_last_dim [OF has_shape_dropout [OF sc e5]])
  then obtain e6 where e6: "highway e5 (last_dim e5) hp (variables fp) = Inr e6"
    using highway_returns [OF assms(5)] by blast
  obtain enc where enc: "dropout (mul_mask e6 (embedding_mask conv)) (1 - chr_dropout_rate hp) (noise2 fp) = Inr enc"
    using dropout_returns [OF assms(6,7)] by blast
  show ?thesis
    unfolding chrawr_embedding_def Let_def by (simp add: conv e5 e6 enc)
qed

lemmas eval_defs = chrawr_conv_def embedding_mask_def conv1d_def conv1d_at_def mul_mask_def mul_vec_def
     conv_emb_def conv_branch_def max_pooling1d_def pool_row_def window_max_def concat_channels_def
     Let_def upt_conv_Cons nth_Cons'

lemma example_conv:
  "chrawr_conv example_emb example_hparams example_pass = Inr [[[3, 5], [0, 0]], [[3, 5], [3, 5]]]"
  by (simp add: example_emb_def example_hparams_def example_pass_def example_vars_def eval_defs)

text \<open>
  Claim C3. When \<open>chrawr_embedding\<close> returns on an input of shape \<open>[B, T, C]\<close>, the
  mask recomputed after pooling and the output both have \<open>B\<close> sequences of
  \<open>ceil(T / p)\<close> positions, and at every position where that mask is 0 the output
  is the zero vector of \<open>hidden_size\<close> channels.
\<close>

theorem chrawr_embedding_padding:
  assumes "has_shape emb B T C" and "chrawr_embedding emb hp fp = Inr out"
  shows "\<exists>conv. chrawr_conv emb hp fp = Inr conv \<and>
           has_shape (embedding_mask conv) B
             ((T + chr_maxpool_size hp - 1) div chr_maxpool_size hp) 1 \<and>
           has_shape out B
             ((T + chr_maxpool_size hp - 1) div chr_maxpool_size hp) (hidden_size hp) \<and>
           (\<forall>b<B. \<forall>t<(T + chr_maxpool_size hp - 1) div chr_maxpool_size hp.
              embedding_mask conv ! b ! t = [0] \<longrightarrow>
              out ! b ! t = replicate (hidden_size hp) 0)"
proof -
  define T' where "T' = (T + chr_maxpool_size hp - 1) div chr_maxpool_size hp"
  from chrawr_embedding_stages [OF assms(2)] obtain conv e5 e6 enc where
    conv: "chrawr_conv emb hp fp = Inr conv"
    and e5: "dropout conv (1 - chr_dropout_rate hp) (noise1 fp) = Inr e5"
    and e6: "highway e5 (last_dim e5) hp (variables fp) = Inr e6"
    and out: "out = mul_mask
                (conv1d (mul_mask e6 (embedding_mask conv)) (hidden_size hp) 1 (\<lambda>a. a)
                   (variables fp Restored_embedding))
                (embedding_mask conv)"
    by blast
  let ?m = "embedding_mask conv"
  let ?e8 = "conv1d (mul_mask e6 ?m) (hidden_size hp) 1 (\<lambda>a. a) (variables fp Restored_embedding)"
  have sc: "has_shape conv B T' (sum_list (chr_kernel_features hp))"
    unfolding T'_def by (rule chrawr_conv_shape [OF assms(1) conv])
  have sm: "has_shape ?m B T' 1" by (rule has_shape_embedding_mask [OF sc])
  have "has_shape e5 B T' (last_dim e5)"
    by (rule has_shape_last_dim [OF has_shape_dropout [OF sc e5]])
  then have "has_shape e6 B T' (last_dim e5)" by (rule has_shape_highway [OF _ e6])
  then have "has_shape (mul_mask e6 ?m) B T' (last_dim e5)" by (rule has_shape_mul_mask [OF _ sm])
  then have s8: "has_shape ?e8 B T' (hidden_size hp)" by (rule has_shape_conv1d)
  then have so: "has_shape out B T' (hidden_size hp)"
    unfolding out by (rule has_shape_mul_mask [OF _ sm])
  have "out ! b ! t = replicate (hidden_size hp) 0"
    if "b < B" "t < T'" "?m ! b ! t = [0]" for b t
  proof -
    have "out ! b ! t = mul_vec (?e8 ! b ! t) (?m ! b ! t)"
      unfolding out by (rule nth_mul_mask [OF s8 sm that(1,2)])
    moreover have "length (?e8 ! b ! t) = hidden_size hp"
      using s8 that(1,2) by (simp add: has_shape_nth)
    ultimately show ?thesis by (simp add: that(3) mul_vec_zero)
  qed
  with conv sm so show ?thesis unfolding T'_def by blast
qed

theorem chrawr_embedding_padding_witness:
  "has_shape example_emb 2 4 1 \<and>
   (\<exists>out. chrawr_embedding example_emb example_hparams example_pass = Inr out \<and>
      chrawr_conv example_emb example_hparams example_pass =
        Inr [[[3, 5], [0, 0]], [[3, 5], [3, 5]]] \<and>
      embedding_mask [[[3, 5], [0, 0]], [[3, 5], [3, 5]]] ! 0 ! 1 = [0] \<and>
      has_shape out 2 2 2 \<and> out ! 0 ! 1 = [0, 0])"
proof -
  have s: "has_shape example_emb 2 4 1" by (simp add: example_emb_def has_shape_def)
  obtain out where out: "chrawr_embedding example_emb example_hparams example_pass = Inr out"
    using chrawr_embedding_returns [of example_hparams example_emb 2 4 1 example_pass] s
    by (auto simp: example_hparams_def)
  have m: "embedding_mask [[[3, 5], [0, 0]], [[3, 5], [3, 5]]] ! 0 ! 1 = [0]"
    by (simp add: embedding_mask_def)
  have T': "(4 + chr_maxpool_size example_hparams - 1) div chr_maxpool_size example_hparams = 2"
    and H: "hidden_size example_hparams = 2"
    by (simp_all add: example_hparams_def)
  from chrawr_embedding_padding [OF s out] obtain conv where
    c: "chrawr_conv example_emb example_hparams example_pass = Inr conv"
    and so: "has_shape out 2 2 2"
    and z: "\<forall>b<2. \<forall>t<2. embedding_mask conv ! b ! t = [0] \<longrightarrow> out ! b ! t = replicate 2 0"
    unfolding T' H by blast
  from c example_conv have "conv = [[[3, 5], [0, 0]], [[3, 5], [3, 5]]]" by simp
  with z m have "out ! 0 ! 1 = replicate 2 0" by simp
  then have "out ! 0 ! 1 = [0, 0]" by (simp add: numeral_2_eq_2)
  with s out example_conv m so show ?thesis by blast
qed

text \<open>
  Claim C7. When \<open>chr_kernels\<close> and \<open>chr_kernel_features\<close> differ in length, \<open>conv_emb\<close>
  and the whole pipeline fail with the \<open>AssertionError\<close> of the configuration check,
  whatever the tensors, the variables and the other hyperparameters are: no tensor
  is produced and no other failure comes first.
\<close>

theorem kernel_feature_mismatch:
  assumes "length (chr_kernels hp) \<noteq> length (chr_kernel_features hp)"
  shows "conv_emb inputs hp input_mask vars = Inl AssertionError \<and>
         chrawr_embedding emb hp fp = Inl AssertionError"
  using assms by (simp add: conv_emb_def chrawr_embedding_def chrawr_conv_def Let_def)

theorem kernel_feature_mismatch_witness:
  "length (chr_kernels (transformer_chrawr_base\<lparr>chr_kernels := [1, 2, 3], chr_kernel_features := [4, 4]\<rparr>)) \<noteq>
   length (chr_kernel_features (transformer_chrawr_base\<lparr>chr_kernels := [1, 2, 3], chr_kernel_features := [4, 4]\<rparr>)) \<and>
   conv_emb example_emb (transformer_chrawr_base\<lparr>chr_kernels := [1, 2, 3], chr_kernel_features := [4, 4]\<rparr>)
     (embedding_mask example_emb) example_vars = Inl AssertionError \<and>
   chrawr_embedding example_emb
     (transformer_chrawr_base\<lparr>chr_kernels := [1, 2, 3], chr_kernel_features := [4, 4]\<rparr>)
     example_pass = Inl AssertionError"
  using kernel_feature_mismatch [of "transformer_chrawr_base\<lparr>chr_kernels := [1, 2, 3], chr_kernel_features := [4, 4]\<rparr>"
      example_emb "embedding_mask example_emb" example_vars example_emb example_pass]
  by (simp add: transformer_chrawr_base_def)

text \<open>
  Claim C8. With \<open>chr_dropout_rate = 0\<close> and \<open>chr_pos_enc\<close> false, two forward passes
  with the same input and the same variables give the same result, whatever the
  random draws of the two passes are.
\<close>

theorem chrawr_embedding_deterministic:
  assumes "chr_dropout_rate hp = 0" and "\<not> chr_pos_enc hp"
    and "variables fp = variables fp'"
  shows "chrawr_embedding emb hp fp = chrawr_embedding emb hp fp'"
proof -
  have d: "dropout x (1 - chr_dropout_rate hp) noise = Inr x" for x noise
    using assms(1) by (simp add: dropout_def)
  have "chrawr_conv emb hp fp = chrawr_conv emb hp fp'"
    using assms(2,3) by (simp add: chrawr_conv_def)
  then show ?thesis
    unfolding chrawr_embedding_def by (simp add: d assms(3) cong: sum.case_cong)
qed

theorem chrawr_embedding_deterministic_witness:
  "chr_dropout_rate transformer_chrawr_base = 0 \<and> \<not> chr_pos_enc transformer_chrawr_base \<and>
   variables example_pass = variables (example_pass\<lparr>noise1 := (\<lambda>b t c. 0), noise2 := (\<lambda>b t c. 1 / 3)\<rparr>) \<and>
   chrawr_embedding example_emb transformer_chrawr_base example_pass =
     chrawr_embedding example_emb transformer_chrawr_base
       (example_pass\<lparr>noise1 := (\<lambda>b t c. 0), noise2 := (\<lambda>b t c. 1 / 3)\<rparr>)"
  using chrawr_embedding_deterministic [of transformer_chrawr_base example_pass
      "example_pass\<lparr>noise1 := (\<lambda>b t c. 0), noise2 := (\<lambda>b t c. 1 / 3)\<rparr>" example_emb]
  by (simp add: transformer_chrawr_base_def)

text \<open>The result of the pipeline never depends on the draw of the second dropout.\<close>

lemma chrawr_embedding_noise2_irrelevant:
  "chrawr_embedding emb hp (fp\<lparr>noise2 := n\<rparr>) = chrawr_embedding emb hp (fp\<lparr>noise2 := n'\<rparr>)"
  by (simp add: chrawr_embedding_def chrawr_conv_def dropout_def Let_def split: sum.splits)

text \<open>
  Claim C2. The claim has the convolution \<open>restored_embedding\<close> consume the output of
  the second dropout, so that the returned tensor depends on it. In the source that
  output is bound to \<open>encoder_input\<close> and never read. With a dropout rate of 1/2, a
  second draw that drops every entry and one that keeps every entry give the same
  returned tensor, although the dropout itself maps an entry 1 to 0 under the first
  draw and to 2 under the second.
\<close>

theorem second_dropout_is_discarded:
  "(\<exists>out. chrawr_embedding example_emb (example_hparams\<lparr>chr_dropout_rate := 1 / 2\<rparr>)
             (example_pass\<lparr>noise2 := (\<lambda>b t c. 0)\<rparr>) = Inr out \<and>
          chrawr_embedding example_emb (example_hparams\<lparr>chr_dropout_rate := 1 / 2\<rparr>)
             (example_pass\<lparr>noise2 := (\<lambda>b t c. 1 / 2)\<rparr>) = Inr out) \<and>
   dropout [[[1]]] (1 - chr_dropout_rate (example_hparams\<lparr>chr_dropout_rate := 1 / 2\<rparr>)) (\<lambda>b t c. 0)
     = Inr [[[0]]] \<and>
   dropout [[[1]]] (1 - chr_dropout_rate (example_hparams\<lparr>chr_dropout_rate := 1 / 2\<rparr>)) (\<lambda>b t c. 1 / 2)
     = Inr [[[2]]]"
proof -
  have s: "has_shape example_emb 2 4 1" by (simp add: example_emb_def has_shape_def)
  obtain out where "chrawr_embedding example_emb (example_hparams\<lparr>chr_dropout_rate := 1 / 2\<rparr>)
             (example_pass\<lparr>noise2 := (\<lambda>b t c. 0)\<rparr>) = Inr out"
    using chrawr_embedding_returns [of "example_hparams\<lparr>chr_dropout_rate := 1 / 2\<rparr>" example_emb 2 4 1
        "example_pass\<lparr>noise2 := (\<lambda>b t c. 0)\<rparr>"] s
    by (auto simp: example_hparams_def)
  then have "\<exists>out. chrawr_embedding example_emb (example_hparams\<lparr>chr_dropout_rate := 1 / 2\<rparr>)
             (example_pass\<lparr>noise2 := (\<lambda>b t c. 0)\<rparr>) = Inr out \<and>
          chrawr_embedding example_emb (example_hparams\<lparr>chr_dropout_rate := 1 / 2\<rparr>)
             (example_pass\<lparr>noise2 := (\<lambda>b t c. 1 / 2)\<rparr>) = Inr out"
    using chrawr_embedding_noise2_irrelevant [where emb = example_emb
        and hp = "example_hparams\<lparr>chr_dropout_rate := 1 / 2\<rparr>"
        and fp = example_pass and n = "\<lambda>b t c. 0" and n' = "\<lambda>b t c. 1 / 2"]
    by simp
  moreover have "dropout [[[1]]] (1 - chr_dropout_rate (example_hparams\<lparr>chr_dropout_rate := 1 / 2\<rparr>)) (\<lambda>b t c. 0)
     = Inr [[[0]]]"
    by (simp add: dropout_def imap_def)
  moreover have "dropout [[[1]]] (1 - chr_dropout_rate (example_hparams\<lparr>chr_dropout_rate := 1 / 2\<rparr>)) (\<lambda>b t c. 1 / 2)
     = Inr [[[2]]]"
    by (simp add: dropout_def imap_def)
  ultimately show ?thesis by blast
qed

end
